theory Spec2Isabelle
  imports Main
begin

section \<open>Values and the data model of \<^verbatim>\<open>src/src/index.ts\<close>\<close>

text \<open>
  The library is TypeScript. Values of type \<^verbatim>\<open>unknown\<close> are modelled by a small
  universe of JavaScript values; an object is an association list in property order.
  Numbers are restricted to the integers, which is all the library itself ever computes
  with (the span counter and the level codes).
\<close>

datatype jsval =
    VUndefined
  | VNull
  | VBool bool
  | VNum int
  | VStr string
  | VArr "jsval list"
  | VObj "(string \<times> jsval) list"

text \<open>\<^verbatim>\<open>type Fields = Record<string, unknown>\<close>\<close>

type_synonym Fields = "(string \<times> jsval) list"

text \<open>\<^verbatim>\<open>k in obj\<close>, \<^verbatim>\<open>obj.k\<close> (a missing property reads as \<^verbatim>\<open>undefined\<close>) and
  \<^verbatim>\<open>obj.k = v\<close> (an existing property keeps its position, a new one goes last).\<close>

definition has_prop :: "string \<Rightarrow> Fields \<Rightarrow> bool" where
  "has_prop k obj = (map_of obj k \<noteq> None)"

definition get_prop :: "string \<Rightarrow> Fields \<Rightarrow> jsval" where
  "get_prop k obj = (case map_of obj k of None \<Rightarrow> VUndefined | Some v \<Rightarrow> v)"

fun set_prop :: "string \<Rightarrow> jsval \<Rightarrow> Fields \<Rightarrow> Fields" where
  "set_prop k v [] = [(k, v)]"
| "set_prop k v ((k', v') # kvs) =
     (if k = k' then (k, v) # kvs else (k', v') # set_prop k v kvs)"

text \<open>The object spread \<^verbatim>\<open>{ ...fields }\<close>: every property of \<^verbatim>\<open>fields\<close> is
  defined in turn on a new object; spreading \<^verbatim>\<open>undefined\<close> adds nothing.\<close>

definition spread :: "Fields option \<Rightarrow> Fields" where
  "spread fields_arg =
     (case fields_arg of
        None \<Rightarrow> []
      | Some kvs \<Rightarrow> foldl (\<lambda>obj (k, v). set_prop k v obj) [] kvs)"

text \<open>\<^verbatim>\<open>enum Level { TRACE = 0, DEBUG = 1, INFO = 2, WARN = 3, ERROR = 4 }\<close>\<close>

datatype Level = TRACE | DEBUG | INFO | WARN | ERROR

fun level_num :: "Level \<Rightarrow> nat" where
  "level_num TRACE = 0"
| "level_num DEBUG = 1"
| "level_num INFO = 2"
| "level_num WARN = 3"
| "level_num ERROR = 4"

text \<open>
  \<^verbatim>\<open>interface Metadata { level; target?; file?; line? }\<close>. The target is a
  \<^typ>\<open>jsval\<close>, \<^term>\<open>VUndefined\<close> when unset: \<^verbatim>\<open>normalizeLogOptions\<close> casts its
  argument, so whatever value stands under the key \<^verbatim>\<open>target\<close> ends up here.
\<close>

record Metadata =
  level :: Level
  target :: jsval
  "file" :: "string option"
  line :: "int option"

text \<open>\<^verbatim>\<open>Partial<Metadata>\<close>: every property may be missing.\<close>

record PartialMetadata =
  p_level :: "Level option"
  p_target :: jsval
  p_file :: "string option"
  p_line :: "int option"

text \<open>The object literal \<^verbatim>\<open>{}\<close> at type \<^verbatim>\<open>Partial<Metadata>\<close>.\<close>

definition no_metadata :: PartialMetadata where
  "no_metadata = \<lparr>p_level = None, p_target = VUndefined, p_file = None, p_line = None\<rparr>"

text \<open>\<^verbatim>\<open>interface SpanContext { id; name; metadata; fields; parent?; startTime }\<close>.
  A context is never written after its construction, so the parent reference is
  modelled by the parent's value.\<close>

datatype SpanContext =
  SpanContext
    (sc_id: nat)
    (sc_name: string)
    (sc_metadata: Metadata)
    (sc_fields: Fields)
    (sc_parent: "SpanContext option")
    (sc_startTime: int)

text \<open>\<^verbatim>\<open>interface Event { metadata; message; fields; span?; timestamp }\<close>. The fields
  are a \<^typ>\<open>jsval\<close> for the same reason as the target of the metadata.\<close>

record Event =
  ev_metadata :: Metadata
  ev_message :: string
  ev_fields :: jsval
  ev_span :: "SpanContext option"
  ev_timestamp :: int

text \<open>
  \<^verbatim>\<open>interface Subscriber\<close>. A subscriber is an external collaborator: the model keeps
  its filter \<^verbatim>\<open>enabled\<close> and records, in the order the library makes them, the calls of
  \<^verbatim>\<open>onSpanEnter\<close>, \<^verbatim>\<open>onSpanExit\<close> and \<^verbatim>\<open>onEvent\<close> it receives. The callbacks are
  taken to return normally and not to call back into the library.
\<close>

record Subscriber =
  enabled :: "Metadata \<Rightarrow> bool"

datatype Notification =
    OnSpanEnter SpanContext
  | OnSpanExit SpanContext
  | OnEvent Event

text \<open>The private state of a \<^verbatim>\<open>Span\<close> object.\<close>

record Span =
  "context" :: SpanContext
  previousSpan :: "SpanContext option"
  entered :: bool

section \<open>The state of the process\<close>

text \<open>
  The three module variables \<^verbatim>\<open>globalSubscriber\<close>, \<^verbatim>\<open>spanIdCounter\<close> and
  \<^verbatim>\<open>currentSpan\<close>; the \<^verbatim>\<open>Span\<close> objects allocated so far (a handle is the index
  of its object); the calls the subscribers have received; and the clock behind
  \<^verbatim>\<open>Date.now()\<close>: the \<open>n\<close>-th reading returns \<open>timeSource n\<close>. The counter is a
  JavaScript number that only \<^verbatim>\<open>++\<close> ever writes; it is modelled by a natural number,
  which is what it holds for the first \<open>2^53\<close> constructions.
\<close>

record world =
  globalSubscriber :: "Subscriber option"
  spanIdCounter :: nat
  currentSpan :: "SpanContext option"
  heap :: "Span list"
  notifications :: "Notification list"
  clockReads :: nat
  timeSource :: "nat \<Rightarrow> int"

text \<open>The state in which the module is loaded.\<close>

definition initial_world :: "(nat \<Rightarrow> int) \<Rightarrow> world" where
  "initial_world ts =
     \<lparr>globalSubscriber = None, spanIdCounter = 0, currentSpan = None, heap = [],
      notifications = [], clockReads = 0, timeSource = ts\<rparr>"

text \<open>A handle is an object reference. Every reference a program holds is valid, so
  the \<^term>\<open>None\<close> of \<open>deref\<close> is never met on a handle that \<open>new_Span\<close> returned.\<close>

definition deref :: "world \<Rightarrow> nat \<Rightarrow> Span option" where
  "deref s h = (if h < length (heap s) then Some (heap s ! h) else None)"

definition Date_now :: "world \<Rightarrow> int \<times> world" where
  "Date_now s = (timeSource s (clockReads s), s\<lparr>clockReads := Suc (clockReads s)\<rparr>)"

text \<open>\<^verbatim>\<open>globalSubscriber?.onSpanEnter(..)\<close> and its siblings: a call that is made only
  when a subscriber is installed.\<close>

definition notify :: "Notification \<Rightarrow> world \<Rightarrow> world" where
  "notify n s =
     (case globalSubscriber s of
        None \<Rightarrow> s
      | Some sub \<Rightarrow> s\<lparr>notifications := notifications s @ [n]\<rparr>)"

definition setGlobalSubscriber :: "Subscriber \<Rightarrow> world \<Rightarrow> world" where
  "setGlobalSubscriber subscriber s = s\<lparr>globalSubscriber := Some subscriber\<rparr>"

definition currentSpanContext :: "world \<Rightarrow> SpanContext option" where
  "currentSpanContext s = currentSpan s"

section \<open>The class \<^verbatim>\<open>Span\<close>\<close>

text \<open>
  The constructor. Its optional parameters are \<^term>\<open>None\<close> when the caller leaves
  them out; the defaults are \<^verbatim>\<open>{}\<close>. The object literal is evaluated in the order of
  its properties: the counter first, the clock last.
\<close>

definition new_Span ::
  "string \<Rightarrow> Fields option \<Rightarrow> PartialMetadata option \<Rightarrow> world \<Rightarrow> nat \<times> world" where
  "new_Span name fields_arg metadata_arg s =
     (let fields = (case fields_arg of None \<Rightarrow> [] | Some f \<Rightarrow> f);
          metadata = (case metadata_arg of None \<Rightarrow> no_metadata | Some m \<Rightarrow> m);
          s1 = s\<lparr>spanIdCounter := spanIdCounter s + 1\<rparr>;
          md = \<lparr>level = (case p_level metadata of None \<Rightarrow> INFO | Some l \<Rightarrow> l),
                target = p_target metadata,
                file = p_file metadata,
                line = p_line metadata\<rparr>;
          parent = currentSpan s1;
          (now, s2) = Date_now s1;
          ctx = SpanContext (spanIdCounter s1) name md fields parent now
      in (length (heap s2),
          s2\<lparr>heap := heap s2 @ [\<lparr>context = ctx, previousSpan = None, entered = False\<rparr>]\<rparr>))"

text \<open>\<^verbatim>\<open>function span(name, fields = {}, metadata = {})\<close>\<close>

definition span ::
  "string \<Rightarrow> Fields option \<Rightarrow> PartialMetadata option \<Rightarrow> world \<Rightarrow> nat \<times> world" where
  "span name fields_arg metadata_arg s =
     new_Span name
       (Some (case fields_arg of None \<Rightarrow> [] | Some f \<Rightarrow> f))
       (Some (case metadata_arg of None \<Rightarrow> no_metadata | Some m \<Rightarrow> m)) s"

text \<open>\<^verbatim>\<open>enter(): this\<close>\<close>

definition enter :: "nat \<Rightarrow> world \<Rightarrow> nat \<times> world" where
  "enter h s =
     (case deref s h of
        None \<Rightarrow> (h, s)
      | Some this \<Rightarrow>
          if entered this then (h, s)
          else
            let this1 = this\<lparr>entered := True\<rparr>;
                this2 = this1\<lparr>previousSpan := currentSpan s\<rparr>;
                s1 = s\<lparr>heap := (heap s)[h := this2]\<rparr>;
                s2 = s1\<lparr>currentSpan := Some (context this2)\<rparr>
            in (h, notify (OnSpanEnter (context this2)) s2))"

text \<open>\<^verbatim>\<open>exit(): void\<close>\<close>

definition exit :: "nat \<Rightarrow> world \<Rightarrow> world" where
  "exit h s =
     (case deref s h of
        None \<Rightarrow> s
      | Some this \<Rightarrow>
          if \<not> entered this then s
          else
            let s1 = notify (OnSpanExit (context this)) s;
                s2 = s1\<lparr>currentSpan := previousSpan this\<rparr>
            in s2\<lparr>heap := (heap s2)[h := this\<lparr>entered := False\<rparr>]\<rparr>)"

text \<open>
  \<^verbatim>\<open>run<T>(fn: () => T): T\<close>. A function of the caller is a state transformer that
  returns a value (\<^term>\<open>Inr\<close>) or throws one (\<^term>\<open>Inl\<close>). The \<^verbatim>\<open>finally\<close> block
  runs on both paths, and the outcome of \<^verbatim>\<open>fn\<close> is the outcome of \<^verbatim>\<open>run\<close>.
\<close>

type_synonym 'a computation = "world \<Rightarrow> (jsval + 'a) \<times> world"

definition run :: "nat \<Rightarrow> 'a computation \<Rightarrow> 'a computation" where
  "run h fn s =
     (let s1 = snd (enter h s) in
      case fn s1 of
        (Inr v, s2) \<Rightarrow> (Inr v, exit h s2)
      | (Inl x, s2) \<Rightarrow> (Inl x, exit h s2))"

text \<open>\<^verbatim>\<open>getContext()\<close>\<close>

definition getContext :: "nat \<Rightarrow> world \<Rightarrow> SpanContext option" where
  "getContext h s = map_option context (deref s h)"

section \<open>Events\<close>

text \<open>The object \<^verbatim>\<open>fullMetadata\<close> that \<^verbatim>\<open>recordEvent\<close> assembles first.\<close>

definition fullMetadata :: "Level \<Rightarrow> PartialMetadata \<Rightarrow> Metadata" where
  "fullMetadata lvl metadata =
     \<lparr>level = lvl, target = p_target metadata, file = p_file metadata,
      line = p_line metadata\<rparr>"

text \<open>\<^verbatim>\<open>function recordEvent(level, message, fields = {}, metadata = {})\<close>. A default
  applies when the argument is \<^verbatim>\<open>undefined\<close>. With no subscriber,
  \<^verbatim>\<open>globalSubscriber?.enabled(..)\<close> is \<^verbatim>\<open>undefined\<close> and the function returns.\<close>

definition recordEvent ::
  "Level \<Rightarrow> string \<Rightarrow> jsval \<Rightarrow> PartialMetadata option \<Rightarrow> world \<Rightarrow> world" where
  "recordEvent lvl msg fields_arg metadata_arg s =
     (let fields = (if fields_arg = VUndefined then VObj [] else fields_arg);
          metadata = (case metadata_arg of None \<Rightarrow> no_metadata | Some m \<Rightarrow> m);
          md = fullMetadata lvl metadata
      in case globalSubscriber s of
           None \<Rightarrow> s
         | Some sub \<Rightarrow>
             if \<not> enabled sub md then s
             else
               let (now, s1) = Date_now s;
                   event = \<lparr>ev_metadata = md, ev_message = msg, ev_fields = fields,
                            ev_span = currentSpan s, ev_timestamp = now\<rparr>
               in notify (OnEvent event) s1)"

text \<open>What \<^verbatim>\<open>normalizeLogOptions\<close> returns: \<^verbatim>\<open>{ target?, fields? }\<close>.\<close>

record NormalizedOptions =
  n_target :: jsval
  n_fields :: jsval

text \<open>\<^verbatim>\<open>function normalizeLogOptions(options?: LogOptions | Fields)\<close>: the options are an
  object, or \<^term>\<open>None\<close> when the caller passes none.\<close>

definition normalizeLogOptions :: "Fields option \<Rightarrow> NormalizedOptions" where
  "normalizeLogOptions options =
     (case options of
        None \<Rightarrow> \<lparr>n_target = VUndefined, n_fields = VUndefined\<rparr>
      | Some obj \<Rightarrow>
          if has_prop ''target'' obj \<or> has_prop ''fields'' obj
          then \<lparr>n_target = get_prop ''target'' obj, n_fields = get_prop ''fields'' obj\<rparr>
          else \<lparr>n_target = VUndefined, n_fields = VObj obj\<rparr>)"

text \<open>The metadata literal \<^verbatim>\<open>{ target: opts.target }\<close> of the five emitters.\<close>

definition target_only :: "jsval \<Rightarrow> PartialMetadata" where
  "target_only t = \<lparr>p_level = None, p_target = t, p_file = None, p_line = None\<rparr>"

definition trace :: "string \<Rightarrow> Fields option \<Rightarrow> world \<Rightarrow> world" where
  "trace msg options s =
     (let opts = normalizeLogOptions options
      in recordEvent TRACE msg (n_fields opts) (Some (target_only (n_target opts))) s)"

definition debug :: "string \<Rightarrow> Fields option \<Rightarrow> world \<Rightarrow> world" where
  "debug msg options s =
     (let opts = normalizeLogOptions options
      in recordEvent DEBUG msg (n_fields opts) (Some (target_only (n_target opts))) s)"

definition info :: "string \<Rightarrow> Fields option \<Rightarrow> world \<Rightarrow> world" where
  "info msg options s =
     (let opts = normalizeLogOptions options
      in recordEvent INFO msg (n_fields opts) (Some (target_only (n_target opts))) s)"

definition warn :: "string \<Rightarrow> Fields option \<Rightarrow> world \<Rightarrow> world" where
  "warn msg options s =
     (let opts = normalizeLogOptions options
      in recordEvent WARN msg (n_fields opts) (Some (target_only (n_target opts))) s)"

definition error :: "string \<Rightarrow> Fields option \<Rightarrow> world \<Rightarrow> world" where
  "error msg options s =
     (let opts = normalizeLogOptions options
      in recordEvent ERROR msg (n_fields opts) (Some (target_only (n_target opts))) s)"

section \<open>Instrumentation\<close>

text \<open>\<^verbatim>\<open>instrument(name, fn, fields?)\<close> returns the wrapped function; the argument
  list of a call is a list of values.\<close>

definition instrument ::
  "string \<Rightarrow> (jsval list \<Rightarrow> 'a computation) \<Rightarrow> Fields option \<Rightarrow> jsval list \<Rightarrow> 'a computation"
  where
  "instrument name fn fields_arg =
     (\<lambda>args s.
        let (h, s1) = span name (Some (set_prop ''args'' (VArr args) (spread fields_arg))) None s
        in run h (fn args) s1)"

text \<open>Of \<^verbatim>\<open>instrumentAsync\<close> only the synchronous first statement of the wrapped
  function is modelled, the construction of the span; promises are not.\<close>

definition instrumentAsync_span ::
  "string \<Rightarrow> Fields option \<Rightarrow> jsval list \<Rightarrow> world \<Rightarrow> nat \<times> world" where
  "instrumentAsync_span name fields_arg args s =
     span name (Some (set_prop ''args'' (VArr args) (spread fields_arg))) None s"

section \<open>The subscribers of \<^verbatim>\<open>src/src/subscribers.ts\<close>\<close>

text \<open>\<^verbatim>\<open>CollectorSubscriber\<close> and \<^verbatim>\<open>ConsoleSubscriber\<close> share their filter:
  \<^verbatim>\<open>metadata.level >= this.minLevel\<close>.\<close>

definition CollectorSubscriber :: "Level \<Rightarrow> Subscriber" where
  "CollectorSubscriber minLevel =
     \<lparr>enabled = (\<lambda>metadata. level_num minLevel \<le> level_num (level metadata))\<rparr>"

section \<open>Programs over the interface\<close>

text \<open>A straight-line client of the library: a sequence of calls of its interface.\<close>

datatype op =
    OpNew string "Fields option" "PartialMetadata option"
  | OpEnter nat
  | OpExit nat
  | OpRecord Level string jsval "PartialMetadata option"
  | OpEmit Level string "Fields option"
  | OpSetSubscriber Subscriber

fun emit :: "Level \<Rightarrow> string \<Rightarrow> Fields option \<Rightarrow> world \<Rightarrow> world" where
  "emit TRACE = trace"
| "emit DEBUG = debug"
| "emit INFO = info"
| "emit WARN = warn"
| "emit ERROR = error"

fun exec :: "op \<Rightarrow> world \<Rightarrow> world" where
  "exec (OpNew name fields_arg metadata_arg) s = snd (new_Span name fields_arg metadata_arg s)"
| "exec (OpEnter h) s = snd (enter h s)"
| "exec (OpExit h) s = exit h s"
| "exec (OpRecord lvl msg fields_arg metadata_arg) s =
     recordEvent lvl msg fields_arg metadata_arg s"
| "exec (OpEmit lvl msg options) s = emit lvl msg options s"
| "exec (OpSetSubscriber sub) s = setGlobalSubscriber sub s"

definition exec_ops :: "op list \<Rightarrow> world \<Rightarrow> world" where
  "exec_ops ops s = fold exec ops s"

text \<open>The constructor calls of a client, and the identifiers of the spans allocated so
  far, in the order of their construction.\<close>

fun is_construction :: "op \<Rightarrow> bool" where
  "is_construction (OpNew name fields_arg metadata_arg) = True"
| "is_construction x = False"

definition constructions :: "op list \<Rightarrow> nat" where
  "constructions ops = length (filter is_construction ops)"

definition span_ids :: "world \<Rightarrow> nat list" where
  "span_ids s = map (\<lambda>sp. sc_id (context sp)) (heap s)"

section \<open>Two sample runs\<close>

text \<open>
  A collector that lets INFO and above through is installed; a span \<open>outer\<close> (handle 0) is
  constructed and entered; spans \<open>A\<close> (handle 1) and \<open>B\<close> (handle 2) are constructed
  inside it and not entered. The second run is the same without a subscriber.
\<close>

definition nested_world :: world where
  "nested_world =
     exec_ops
       [OpSetSubscriber (CollectorSubscriber INFO),
        OpNew ''outer'' None None, OpEnter 0,
        OpNew ''A'' None None, OpNew ''B'' None None]
       (initial_world (\<lambda>n. 1000 + int n))"

definition silent_world :: world where
  "silent_world =
     exec_ops
       [OpNew ''outer'' None None, OpEnter 0,
        OpNew ''A'' None None, OpNew ''B'' None None]
       (initial_world (\<lambda>n. 1000 + int n))"

text \<open>
  The scenario \<^verbatim>\<open>instrument("f", (x) => x + 1)\<close> called twice on 41, under a collector
  that lets everything through. \<open>plus_one\<close> is the function \<^verbatim>\<open>(x) => x + 1\<close> on an
  integer first argument; on any other argument JavaScript leaves the integers (a string
  or NaN), which the numbers of this model do not cover, and no statement below looks at
  the value given there.
\<close>

definition plus_one :: "jsval list \<Rightarrow> jsval computation" where
  "plus_one args s =
     (Inr (case args of VNum x # rest \<Rightarrow> VNum (x + 1) | _ \<Rightarrow> VUndefined), s)"

definition collector_world :: world where
  "collector_world =
     setGlobalSubscriber (CollectorSubscriber TRACE) (initial_world (\<lambda>n. 1000 + int n))"

definition two_calls_world :: world where
  "two_calls_world =
     snd (instrument ''f'' plus_one None [VNum 41]
       (snd (instrument ''f'' plus_one None [VNum 41] collector_world)))"

section \<open>Basic facts\<close>

lemmas run_defs =
  exec_ops_def new_Span_def enter_def exit_def deref_def notify_def Date_now_def
  setGlobalSubscriber_def initial_world_def no_metadata_def CollectorSubscriber_def Let_def

lemma nested_world_heap:
  "length (heap nested_world) = 3"
  "entered (heap nested_world ! 0)"
  "\<not> entered (heap nested_world ! 1)"
  "\<not> entered (heap nested_world ! 2)"
  by (simp_all add: nested_world_def run_defs)

lemma nested_world_subscriber: "globalSubscriber nested_world = Some (CollectorSubscriber INFO)"
  by (simp add: nested_world_def run_defs)

lemma nested_world_current:
  "currentSpan nested_world = Some (context (heap nested_world ! 0))"
  by (simp add: nested_world_def run_defs)

lemma nested_world_deref:
  "deref nested_world 0 = Some (heap nested_world ! 0)"
  "deref nested_world 1 = Some (heap nested_world ! 1)"
  "deref nested_world 2 = Some (heap nested_world ! 2)"
  by (simp_all add: deref_def nested_world_heap)

lemma silent_world_heap:
  "length (heap silent_world) = 3"
  "entered (heap silent_world ! 0)"
  "\<not> entered (heap silent_world ! 1)"
  by (simp_all add: silent_world_def run_defs)

lemma silent_world_subscriber: "globalSubscriber silent_world = None"
  by (simp add: silent_world_def run_defs)

lemma silent_world_deref:
  "deref silent_world 0 = Some (heap silent_world ! 0)"
  "deref silent_world 1 = Some (heap silent_world ! 1)"
  by (simp_all add: deref_def silent_world_heap)

lemma notify_simps [simp]:
  "heap (notify n s) = heap s"
  "currentSpan (notify n s) = currentSpan s"
  "spanIdCounter (notify n s) = spanIdCounter s"
  "globalSubscriber (notify n s) = globalSubscriber s"
  "clockReads (notify n s) = clockReads s"
  "timeSource (notify n s) = timeSource s"
  by (simp_all add: notify_def split: option.splits)

lemma deref_notify [simp]: "deref (notify n s) h = deref s h"
  by (simp add: deref_def)

lemma enter_entered: "deref s h = Some sp \<Longrightarrow> entered sp \<Longrightarrow> enter h s = (h, s)"
  by (simp add: enter_def)

lemma exit_not_entered: "deref s h = Some sp \<Longrightarrow> \<not> entered sp \<Longrightarrow> exit h s = s"
  by (simp add: exit_def)

lemma deref_enter_fresh:
  "deref s h = Some sp \<Longrightarrow> \<not> entered sp \<Longrightarrow>
   deref (snd (enter h s)) h = Some (sp\<lparr>entered := True, previousSpan := currentSpan s\<rparr>)"
  by (auto simp: enter_def Let_def deref_def split: if_splits)

lemma deref_enter_other: "g \<noteq> h \<Longrightarrow> deref (snd (enter g s)) h = deref s h"
  by (simp add: enter_def Let_def deref_def split: option.splits)

lemma deref_exit_other: "g \<noteq> h \<Longrightarrow> deref (exit g s) h = deref s h"
  by (simp add: exit_def Let_def deref_def split: option.splits)

lemma deref_exit_entered:
  "deref s h = Some sp \<Longrightarrow> entered sp \<Longrightarrow> deref (exit h s) h = Some (sp\<lparr>entered := False\<rparr>)"
  by (auto simp: exit_def Let_def deref_def split: if_splits)

lemma currentSpan_enter_fresh:
  "deref s h = Some sp \<Longrightarrow> \<not> entered sp \<Longrightarrow>
   currentSpan (snd (enter h s)) = Some (context sp)"
  by (simp add: enter_def Let_def)

lemma currentSpan_exit:
  "deref s h = Some sp \<Longrightarrow> entered sp \<Longrightarrow> currentSpan (exit h s) = previousSpan sp"
  by (simp add: exit_def Let_def)

lemma notifications_enter_fresh:
  "deref s h = Some sp \<Longrightarrow> \<not> entered sp \<Longrightarrow> globalSubscriber s = Some sub \<Longrightarrow>
   notifications (snd (enter h s)) = notifications s @ [OnSpanEnter (context sp)]"
  by (simp add: enter_def Let_def notify_def)

lemma notifications_exit_entered:
  "deref s h = Some sp \<Longrightarrow> entered sp \<Longrightarrow> globalSubscriber s = Some sub \<Longrightarrow>
   notifications (exit h s) = notifications s @ [OnSpanExit (context sp)]"
  by (simp add: exit_def Let_def notify_def)

lemma globalSubscriber_enter [simp]: "globalSubscriber (snd (enter h s)) = globalSubscriber s"
  by (simp add: enter_def Let_def split: option.splits)

lemma globalSubscriber_exit [simp]: "globalSubscriber (exit h s) = globalSubscriber s"
  by (simp add: exit_def Let_def split: option.splits)

lemma deref_new_Span:
  "deref s h = Some sp \<Longrightarrow> deref (snd (new_Span name f m s)) h = Some sp"
  by (auto simp: new_Span_def Let_def Date_now_def deref_def nth_append split: if_splits)

lemma heap_recordEvent [simp]: "heap (recordEvent lvl msg f m s) = heap s"
  by (simp add: recordEvent_def Let_def Date_now_def split: option.splits)

lemma heap_emit [simp]: "heap (emit lvl msg opts s) = heap s"
  by (cases lvl) (simp_all add: trace_def debug_def info_def warn_def error_def Let_def)

lemma exec_ops_Cons: "exec_ops (x # xs) s = exec_ops xs (exec x s)"
  by (simp add: exec_ops_def)

lemma exec_ops_append: "exec_ops (xs @ ys) s = exec_ops ys (exec_ops xs s)"
  by (simp add: exec_ops_def)

text \<open>An entered span is touched by nothing but its own exit.\<close>

lemma exec_keeps_entered:
  assumes "x \<noteq> OpExit h" and "deref s h = Some sp" and "entered sp"
  shows "deref (exec x s) h = Some sp"
proof (cases x)
  case (OpNew name f m)
  with assms show ?thesis by (simp add: deref_new_Span)
next
  case (OpEnter g)
  show ?thesis
  proof (cases "g = h")
    case True
    with assms OpEnter show ?thesis by (simp add: enter_entered)
  next
    case False
    with assms OpEnter show ?thesis by (simp add: deref_enter_other)
  qed
next
  case (OpExit g)
  with assms have "g \<noteq> h" by auto
  with assms OpExit show ?thesis by (simp add: deref_exit_other)
next
  case (OpRecord lvl msg f m)
  with assms show ?thesis by (auto simp: deref_def split: if_splits)
next
  case (OpEmit lvl msg opts)
  with assms show ?thesis by (auto simp: deref_def split: if_splits)
next
  case (OpSetSubscriber sub)
  with assms show ?thesis
    by (auto simp: deref_def setGlobalSubscriber_def split: if_splits)
qed

lemma exec_ops_keeps_entered:
  "OpExit h \<notin> set ops \<Longrightarrow> deref s h = Some sp \<Longrightarrow> entered sp \<Longrightarrow>
   deref (exec_ops ops s) h = Some sp"
proof (induction ops arbitrary: s)
  case Nil
  then show ?case by (simp add: exec_ops_def)
next
  case (Cons x xs)
  from Cons.prems have "deref (exec x s) h = Some sp"
    by (intro exec_keeps_entered) auto
  with Cons show ?case by (simp add: exec_ops_def)
qed

lemma run_unfold: "fn (snd (enter h s)) = (r, s2) \<Longrightarrow> run h fn s = (r, exit h s2)"
  by (cases r) (simp_all add: run_def)

lemma new_Span_result:
  "new_Span name f m s =
     (length (heap s),
      s\<lparr>spanIdCounter := spanIdCounter s + 1, clockReads := Suc (clockReads s),
        heap := heap s @
          [\<lparr>context = SpanContext (spanIdCounter s + 1) name
               \<lparr>level = (case p_level (case m of None \<Rightarrow> no_metadata | Some x \<Rightarrow> x) of
                           None \<Rightarrow> INFO | Some l \<Rightarrow> l),
                target = p_target (case m of None \<Rightarrow> no_metadata | Some x \<Rightarrow> x),
                file = p_file (case m of None \<Rightarrow> no_metadata | Some x \<Rightarrow> x),
                line = p_line (case m of None \<Rightarrow> no_metadata | Some x \<Rightarrow> x)\<rparr>
               (case f of None \<Rightarrow> [] | Some x \<Rightarrow> x) (currentSpan s)
               (timeSource s (clockReads s)),
            previousSpan = None, entered = False\<rparr>]\<rparr>)"
  by (simp add: new_Span_def Let_def Date_now_def)

lemma span_result:
  "span name f m s =
     (length (heap s),
      s\<lparr>spanIdCounter := spanIdCounter s + 1, clockReads := Suc (clockReads s),
        heap := heap s @
          [\<lparr>context = SpanContext (spanIdCounter s + 1) name
               \<lparr>level = (case p_level (case m of None \<Rightarrow> no_metadata | Some x \<Rightarrow> x) of
                           None \<Rightarrow> INFO | Some l \<Rightarrow> l),
                target = p_target (case m of None \<Rightarrow> no_metadata | Some x \<Rightarrow> x),
                file = p_file (case m of None \<Rightarrow> no_metadata | Some x \<Rightarrow> x),
                line = p_line (case m of None \<Rightarrow> no_metadata | Some x \<Rightarrow> x)\<rparr>
               (case f of None \<Rightarrow> [] | Some x \<Rightarrow> x) (currentSpan s)
               (timeSource s (clockReads s)),
            previousSpan = None, entered = False\<rparr>]\<rparr>)"
  by (simp add: span_def new_Span_result)

text \<open>Identifiers: only the constructor moves the counter, and nothing rewrites the
  identifier of a span that exists.\<close>

lemma map_update_same:
  "h < length xs \<Longrightarrow> f y = f (xs ! h) \<Longrightarrow> map f (xs[h := y]) = map f xs"
  by (simp add: map_update list_update_same_conv)

lemma span_ids_enter [simp]: "span_ids (snd (enter h s)) = span_ids s"
  by (auto simp: span_ids_def enter_def Let_def deref_def map_update_same split: option.splits)

lemma span_ids_exit [simp]: "span_ids (exit h s) = span_ids s"
  by (auto simp: span_ids_def exit_def Let_def deref_def map_update_same split: option.splits)

lemma spanIdCounter_enter [simp]: "spanIdCounter (snd (enter h s)) = spanIdCounter s"
  by (simp add: enter_def Let_def split: option.splits)

lemma spanIdCounter_exit [simp]: "spanIdCounter (exit h s) = spanIdCounter s"
  by (simp add: exit_def Let_def split: option.splits)

lemma spanIdCounter_recordEvent [simp]:
  "spanIdCounter (recordEvent lvl msg f m s) = spanIdCounter s"
  by (simp add: recordEvent_def Let_def Date_now_def split: option.splits)

lemma spanIdCounter_emit [simp]: "spanIdCounter (emit lvl msg opts s) = spanIdCounter s"
  by (cases lvl) (simp_all add: trace_def debug_def info_def warn_def error_def Let_def)

lemma span_ids_recordEvent [simp]: "span_ids (recordEvent lvl msg f m s) = span_ids s"
  by (simp add: span_ids_def)

lemma span_ids_emit [simp]: "span_ids (emit lvl msg opts s) = span_ids s"
  by (simp add: span_ids_def)

lemma span_ids_new_Span:
  "span_ids (snd (new_Span name f m s)) = span_ids s @ [spanIdCounter s + 1]"
  by (simp add: span_ids_def new_Span_result)

lemma spanIdCounter_new_Span:
  "spanIdCounter (snd (new_Span name f m s)) = spanIdCounter s + 1"
  by (simp add: new_Span_result)

lemma exec_ids:
  "span_ids (exec x s) = span_ids s @ (if is_construction x then [spanIdCounter s + 1] else [])
   \<and> spanIdCounter (exec x s) = spanIdCounter s + (if is_construction x then 1 else 0)"
  by (cases x)
    (simp_all add: span_ids_new_Span spanIdCounter_new_Span,
      simp add: setGlobalSubscriber_def span_ids_def)

lemma exec_ops_ids:
  "span_ids (exec_ops ops s) =
     span_ids s @ [spanIdCounter s + 1 ..< spanIdCounter s + 1 + constructions ops]
   \<and> spanIdCounter (exec_ops ops s) = spanIdCounter s + constructions ops"
proof (induction ops arbitrary: s)
  case Nil
  show ?case by (simp add: exec_ops_def constructions_def)
next
  case (Cons x xs)
  have step: "exec_ops (x # xs) s = exec_ops xs (exec x s)"
    by (simp add: exec_ops_def)
  show ?case
  proof (cases "is_construction x")
    case True
    then have c: "constructions (x # xs) = Suc (constructions xs)"
      by (simp add: constructions_def)
    have "[spanIdCounter s + 1 ..< spanIdCounter s + 1 + Suc (constructions xs)] =
          (spanIdCounter s + 1) # [spanIdCounter s + 2 ..< spanIdCounter s + 2 + constructions xs]"
      by (simp add: upt_conv_Cons)
    with True show ?thesis
      by (simp add: step Cons.IH exec_ids c)
  next
    case False
    then have c: "constructions (x # xs) = constructions xs"
      by (simp add: constructions_def)
    with False show ?thesis
      by (simp add: step Cons.IH exec_ids c)
  qed
qed

text \<open>The context of a span object is never written.\<close>

lemma getContext_Some_iff:
  "getContext g s = Some c \<longleftrightarrow> g < length (heap s) \<and> context (heap s ! g) = c"
  by (auto simp: getContext_def deref_def)

lemma getContext_exec:
  assumes "getContext g s = Some c"
  shows "getContext g (exec x s) = Some c"
proof (cases x)
  case (OpNew name f m)
  with assms show ?thesis
    by (auto simp: getContext_Some_iff new_Span_result nth_append)
next
  case (OpEnter h)
  with assms show ?thesis
    by (auto simp: getContext_Some_iff enter_def Let_def deref_def nth_list_update
        split: option.splits)
next
  case (OpExit h)
  with assms show ?thesis
    by (auto simp: getContext_Some_iff exit_def Let_def deref_def nth_list_update
        split: option.splits)
next
  case (OpRecord lvl msg f m)
  with assms show ?thesis by (simp add: getContext_Some_iff)
next
  case (OpEmit lvl msg opts)
  with assms show ?thesis by (simp add: getContext_Some_iff)
next
  case (OpSetSubscriber sub)
  with assms show ?thesis by (simp add: getContext_Some_iff setGlobalSubscriber_def)
qed

lemma getContext_exec_ops:
  "getContext g s = Some c \<Longrightarrow> getContext g (exec_ops ops s) = Some c"
proof (induction ops arbitrary: s)
  case Nil
  then show ?case by (simp add: exec_ops_def)
next
  case (Cons x xs)
  from Cons.prems have "getContext g (exec x s) = Some c"
    by (rule getContext_exec)
  then have "getContext g (exec_ops xs (exec x s)) = Some c"
    by (rule Cons.IH)
  then show ?case by (simp add: exec_ops_def)
qed

text \<open>Events and options.\<close>

lemma emit_recordEvent:
  "emit lvl msg options s =
     recordEvent lvl msg (n_fields (normalizeLogOptions options))
       (Some (target_only (n_target (normalizeLogOptions options)))) s"
  by (cases lvl) (simp_all add: trace_def debug_def info_def warn_def error_def Let_def)

lemma recordEvent_enabled:
  "globalSubscriber s = Some sub \<Longrightarrow>
   enabled sub (fullMetadata lvl (case m of None \<Rightarrow> no_metadata | Some x \<Rightarrow> x)) \<Longrightarrow>
   notifications (recordEvent lvl msg f m s) =
     notifications s @
       [OnEvent \<lparr>ev_metadata = fullMetadata lvl (case m of None \<Rightarrow> no_metadata | Some x \<Rightarrow> x),
                 ev_message = msg,
                 ev_fields = (if f = VUndefined then VObj [] else f),
                 ev_span = currentSpan s,
                 ev_timestamp = timeSource s (clockReads s)\<rparr>]"
  by (simp add: recordEvent_def Let_def Date_now_def notify_def)

lemma map_of_set_prop: "map_of (set_prop k v kvs) = (map_of kvs)(k \<mapsto> v)"
  by (induction kvs) (auto simp: fun_eq_iff)

lemma get_prop_set_prop:
  "get_prop k' (set_prop k v kvs) = (if k' = k then v else get_prop k' kvs)"
  by (simp add: get_prop_def map_of_set_prop)

text \<open>A call of an instrumented function, unfolded: the function of the caller runs in
  the state \<open>s_in\<close>, in which the new span exists, is entered and is the current span.\<close>

lemma instrument_unfold:
  fixes s :: world and fn :: "jsval list \<Rightarrow> 'a computation" and name :: string
    and args :: "jsval list" and extra :: "Fields option"
  defines "ctx \<equiv> SpanContext (spanIdCounter s + 1) name
                   \<lparr>level = INFO, target = VUndefined, file = None, line = None\<rparr>
                   (set_prop ''args'' (VArr args) (spread extra)) (currentSpan s)
                   (timeSource s (clockReads s))"
  defines "s_in \<equiv> notify (OnSpanEnter ctx)
                    (s\<lparr>spanIdCounter := spanIdCounter s + 1,
                       clockReads := Suc (clockReads s),
                       heap := heap s @
                         [\<lparr>context = ctx, previousSpan = currentSpan s, entered = True\<rparr>],
                       currentSpan := Some ctx\<rparr>)"
  shows "instrument name fn extra args s =
           (fst (fn args s_in), exit (length (heap s)) (snd (fn args s_in)))"
proof -
  have e: "snd (enter (length (heap s))
              (snd (span name (Some (set_prop ''args'' (VArr args) (spread extra))) None s)))
           = s_in"
    by (simp add: span_result enter_def deref_def Let_def no_metadata_def s_in_def ctx_def)
  have "run (length (heap s)) (fn args)
          (snd (span name (Some (set_prop ''args'' (VArr args) (spread extra))) None s))
        = (fst (fn args s_in), exit (length (heap s)) (snd (fn args s_in)))"
    by (rule run_unfold) (simp add: e)
  then show ?thesis
    by (simp add: instrument_def span_result)
qed

lemma instrument_ids:
  fixes fn :: "jsval list \<Rightarrow> 'a computation"
  assumes "\<forall>t. span_ids (snd (fn args t)) = span_ids t
              \<and> spanIdCounter (snd (fn args t)) = spanIdCounter t"
  shows "span_ids (snd (instrument name fn extra args s)) = span_ids s @ [spanIdCounter s + 1]
       \<and> spanIdCounter (snd (instrument name fn extra args s)) = spanIdCounter s + 1"
  using assms by (simp add: instrument_unfold) (simp add: span_ids_def)

lemma collector_world_facts:
  "globalSubscriber collector_world = Some (CollectorSubscriber TRACE)"
  "span_ids collector_world = []"
  "spanIdCounter collector_world = 0"
  "heap collector_world = []"
  "currentSpan collector_world = None"
  by (simp_all add: collector_world_def span_ids_def run_defs)

section \<open>The current span is restored on exit\<close>

text \<open>
  Claim C1. Let a span \<open>h\<close> that is not entered be entered, let any calls that do not
  exit \<open>h\<close> follow (constructions, events, enters and exits of other spans, nested or
  not, further calls of \<open>enter\<close> on \<open>h\<close> itself), and let \<open>h\<close> then be exited: the current span
  is again what it was just before \<open>h\<close> was entered. In particular, for two handles
  \<open>h \<noteq> b\<close>, after enter \<open>h\<close>, enter \<open>b\<close>, exit \<open>b\<close>, exit \<open>h\<close> the current span is what it
  was before the first enter.
\<close>

theorem exit_restores_current_span:
  assumes "deref s h = Some sp" and "\<not> entered sp"
  shows "(OpExit h \<notin> set ops \<longrightarrow>
            currentSpan (exec_ops (OpEnter h # ops @ [OpExit h]) s) = currentSpan s)
       \<and> (b \<noteq> h \<longrightarrow>
            currentSpan (exit h (exit b (snd (enter b (snd (enter h s)))))) = currentSpan s)"
proof (intro conjI impI)
  let ?sp' = "sp\<lparr>entered := True, previousSpan := currentSpan s\<rparr>"
  have d: "deref (snd (enter h s)) h = Some ?sp'"
    using assms by (simp add: deref_enter_fresh)
  {
    assume "OpExit h \<notin> set ops"
    with d have "deref (exec_ops ops (snd (enter h s))) h = Some ?sp'"
      by (intro exec_ops_keeps_entered) auto
    then have "currentSpan (exit h (exec_ops ops (snd (enter h s)))) = previousSpan ?sp'"
      by (intro currentSpan_exit) auto
    then show "currentSpan (exec_ops (OpEnter h # ops @ [OpExit h]) s) = currentSpan s"
      by (simp add: exec_ops_Cons exec_ops_append exec_ops_def)
  }
  {
    assume "b \<noteq> h"
    with d have "deref (exit b (snd (enter b (snd (enter h s))))) h = Some ?sp'"
      by (simp add: deref_enter_other deref_exit_other)
    then have "currentSpan (exit h (exit b (snd (enter b (snd (enter h s)))))) =
        previousSpan ?sp'"
      by (intro currentSpan_exit) auto
    then show "currentSpan (exit h (exit b (snd (enter b (snd (enter h s)))))) = currentSpan s"
      by simp
  }
qed

theorem exit_restores_current_span_witness:
  "currentSpan (exec_ops [OpEnter 1, OpEnter 2, OpEmit INFO ''m'' None, OpEnter 1, OpExit 2,
                          OpExit 1] nested_world)
     = Some (context (heap nested_world ! 0))
   \<and> currentSpan (exit 1 (exit 2 (snd (enter 2 (snd (enter 1 nested_world))))))
     = Some (context (heap nested_world ! 0))"
proof -
  have no_exit: "OpExit 1 \<notin> set [OpEnter 2, OpEmit INFO ''m'' None, OpEnter 1, OpExit 2]"
    by simp
  have "(2::nat) \<noteq> 1" by simp
  with no_exit
    exit_restores_current_span
      [OF nested_world_deref(2) nested_world_heap(3),
       of "[OpEnter 2, OpEmit INFO ''m'' None, OpEnter 1, OpExit 2]" 2]
  show ?thesis
    by (simp add: nested_world_current)
qed

section \<open>Idempotence of enter and exit\<close>

text \<open>
  Claim C3. With a subscriber installed: entering a span that is not entered twice in a
  row makes one \<open>onSpanEnter\<close> call, and the second \<open>enter\<close> changes nothing and returns
  the handle; exiting an entered span twice in a row makes one \<open>onSpanExit\<close> call, and the
  second \<open>exit\<close> changes nothing; entering an entered span and exiting a span that is not
  entered change nothing; and a span can be entered and exited again after its exit,
  each round making its own pair of calls.
\<close>

theorem enter_exit_idempotent:
  assumes "deref s h = Some sp" and "globalSubscriber s = Some sub"
  shows "(\<not> entered sp \<longrightarrow>
            notifications (snd (enter h (snd (enter h s)))) =
              notifications s @ [OnSpanEnter (context sp)]
          \<and> enter h (snd (enter h s)) = (h, snd (enter h s)))
       \<and> (entered sp \<longrightarrow>
            notifications (exit h (exit h s)) = notifications s @ [OnSpanExit (context sp)]
          \<and> exit h (exit h s) = exit h s
          \<and> enter h s = (h, s))
       \<and> (\<not> entered sp \<longrightarrow> exit h s = s)
       \<and> (\<not> entered sp \<longrightarrow>
            notifications (exit h (snd (enter h (exit h (snd (enter h s)))))) =
              notifications s @ [OnSpanEnter (context sp), OnSpanExit (context sp),
                                 OnSpanEnter (context sp), OnSpanExit (context sp)])"
proof (intro conjI impI)
  assume fresh: "\<not> entered sp"
  let ?s1 = "snd (enter h s)"
  let ?sp1 = "sp\<lparr>entered := True, previousSpan := currentSpan s\<rparr>"
  have d1: "deref ?s1 h = Some ?sp1"
    using assms fresh by (simp add: deref_enter_fresh)
  then have noop: "enter h ?s1 = (h, ?s1)"
    by (intro enter_entered) auto
  show "enter h ?s1 = (h, ?s1)" by (rule noop)
  have n1: "notifications ?s1 = notifications s @ [OnSpanEnter (context sp)]"
    using assms fresh by (simp add: notifications_enter_fresh)
  show "notifications (snd (enter h ?s1)) = notifications s @ [OnSpanEnter (context sp)]"
    by (simp add: noop n1)
  show "exit h s = s"
    using assms(1) fresh by (rule exit_not_entered)
  let ?s2 = "exit h ?s1"
  let ?sp2 = "?sp1\<lparr>entered := False\<rparr>"
  have d2: "deref ?s2 h = Some ?sp2"
    using d1 by (intro deref_exit_entered) auto
  have n2: "notifications ?s2 = notifications ?s1 @ [OnSpanExit (context ?sp1)]"
    using d1 assms(2) by (intro notifications_exit_entered[where sub = sub]) auto
  let ?s3 = "snd (enter h ?s2)"
  let ?sp3 = "?sp2\<lparr>entered := True, previousSpan := currentSpan ?s2\<rparr>"
  have d3: "deref ?s3 h = Some ?sp3"
    using d2 by (intro deref_enter_fresh) auto
  have n3: "notifications ?s3 = notifications ?s2 @ [OnSpanEnter (context ?sp2)]"
    using d2 assms(2) by (intro notifications_enter_fresh[where sub = sub]) auto
  have n4: "notifications (exit h ?s3) = notifications ?s3 @ [OnSpanExit (context ?sp3)]"
    using d3 assms(2) by (intro notifications_exit_entered[where sub = sub]) auto
  show "notifications (exit h ?s3) =
          notifications s @ [OnSpanEnter (context sp), OnSpanExit (context sp),
                             OnSpanEnter (context sp), OnSpanExit (context sp)]"
    by (simp add: n1 n2 n3 n4)
next
  assume ent: "entered sp"
  show "enter h s = (h, s)"
    using assms(1) ent by (rule enter_entered)
  have d1: "deref (exit h s) h = Some (sp\<lparr>entered := False\<rparr>)"
    using assms(1) ent by (rule deref_exit_entered)
  then show noop: "exit h (exit h s) = exit h s"
    by (intro exit_not_entered) auto
  show "notifications (exit h (exit h s)) = notifications s @ [OnSpanExit (context sp)]"
    using assms ent by (simp add: noop notifications_exit_entered)
qed

theorem enter_exit_idempotent_witness:
  "notifications (snd (enter 1 (snd (enter 1 nested_world)))) =
     notifications nested_world @ [OnSpanEnter (context (heap nested_world ! 1))]
   \<and> enter 1 (snd (enter 1 nested_world)) = (1, snd (enter 1 nested_world))
   \<and> exit 1 nested_world = nested_world
   \<and> notifications (exit 0 (exit 0 nested_world)) =
       notifications nested_world @ [OnSpanExit (context (heap nested_world ! 0))]
   \<and> exit 0 (exit 0 nested_world) = exit 0 nested_world
   \<and> enter 0 nested_world = (0, nested_world)"
  using
    enter_exit_idempotent [OF nested_world_deref(2) nested_world_subscriber]
    enter_exit_idempotent [OF nested_world_deref(1) nested_world_subscriber]
    nested_world_heap(2,3)
  by blast

section \<open>No subscriber\<close>

text \<open>
  Claim C8. With no subscriber installed, \<open>enter\<close> and \<open>exit\<close> make no call of a
  subscriber and still change the state: \<open>enter\<close> on a span that is not entered makes it the
  current span, saves the previous one and sets the flag; \<open>exit\<close> on an entered span
  restores the saved span and clears the flag. Recording an event, directly or through an
  emitter, changes nothing at all: no clock reading, no event.
\<close>

theorem no_subscriber_is_silent:
  assumes "globalSubscriber s = None" and "deref s h = Some sp"
  shows "notifications (snd (enter h s)) = notifications s
       \<and> notifications (exit h s) = notifications s
       \<and> (\<not> entered sp \<longrightarrow>
            currentSpan (snd (enter h s)) = Some (context sp)
          \<and> deref (snd (enter h s)) h =
              Some (sp\<lparr>entered := True, previousSpan := currentSpan s\<rparr>))
       \<and> (entered sp \<longrightarrow>
            currentSpan (exit h s) = previousSpan sp
          \<and> deref (exit h s) h = Some (sp\<lparr>entered := False\<rparr>))
       \<and> recordEvent lvl msg fields_arg metadata_arg s = s
       \<and> emit lvl msg options s = s"
proof (intro conjI impI)
  show "notifications (snd (enter h s)) = notifications s"
    using assms by (simp add: enter_def Let_def notify_def)
  show "notifications (exit h s) = notifications s"
    using assms by (simp add: exit_def Let_def notify_def)
  show rec: "recordEvent lvl msg fields_arg metadata_arg s = s" for lvl msg fields_arg metadata_arg
    using assms(1) by (simp add: recordEvent_def Let_def)
  show "emit lvl msg options s = s"
    by (cases lvl) (simp_all add: trace_def debug_def info_def warn_def error_def Let_def rec)
next
  assume "\<not> entered sp"
  with assms(2) show "currentSpan (snd (enter h s)) = Some (context sp)"
    by (rule currentSpan_enter_fresh)
next
  assume "\<not> entered sp"
  with assms(2) show "deref (snd (enter h s)) h =
      Some (sp\<lparr>entered := True, previousSpan := currentSpan s\<rparr>)"
    by (rule deref_enter_fresh)
next
  assume "entered sp"
  with assms(2) show "currentSpan (exit h s) = previousSpan sp"
    by (rule currentSpan_exit)
next
  assume "entered sp"
  with assms(2) show "deref (exit h s) h = Some (sp\<lparr>entered := False\<rparr>)"
    by (rule deref_exit_entered)
qed

theorem no_subscriber_is_silent_witness:
  "notifications (snd (enter 1 silent_world)) = notifications silent_world
   \<and> currentSpan (snd (enter 1 silent_world)) = Some (context (heap silent_world ! 1))
   \<and> notifications (exit 0 silent_world) = notifications silent_world
   \<and> currentSpan (exit 0 silent_world) = previousSpan (heap silent_world ! 0)
   \<and> recordEvent ERROR ''m'' VUndefined None silent_world = silent_world
   \<and> emit ERROR ''m'' None silent_world = silent_world"
  using
    no_subscriber_is_silent [OF silent_world_subscriber silent_world_deref(2),
      of ERROR "''m''" VUndefined None None]
    no_subscriber_is_silent [OF silent_world_subscriber silent_world_deref(1),
      of ERROR "''m''" VUndefined None None]
    silent_world_heap(2,3)
  by blast

section \<open>Scoped execution\<close>

text \<open>
  Claim C2. \<open>run h fn\<close> enters the span, runs \<open>fn\<close> and calls \<open>exit\<close> on the state
  \<open>fn\<close> leaves, whether \<open>fn\<close> returned or threw, and the outcome of \<open>fn\<close>, value or thrown
  error, is the outcome of \<open>run\<close>. When the span is still entered once \<open>fn\<close> is done and a
  subscriber is installed, that exit makes exactly one \<open>onSpanExit\<close> call, after everything
  \<open>fn\<close> did, restores the saved current span and leaves the span not entered. For a
  function that only returns or throws, on a span that is not entered, the calls are one
  \<open>onSpanEnter\<close> and one \<open>onSpanExit\<close>, and the current span is what it was before.
\<close>

theorem run_exits_on_every_path:
  "run h fn s =
     (fst (fn (snd (enter h s))), exit h (snd (fn (snd (enter h s)))))
   \<and> (fn (snd (enter h s)) = (r, s2) \<and> deref s2 h = Some sp2 \<and> entered sp2
        \<and> globalSubscriber s2 = Some sub \<longrightarrow>
        fst (run h fn s) = r
      \<and> notifications (snd (run h fn s)) = notifications s2 @ [OnSpanExit (context sp2)]
      \<and> currentSpan (snd (run h fn s)) = previousSpan sp2
      \<and> deref (snd (run h fn s)) h = Some (sp2\<lparr>entered := False\<rparr>))
   \<and> (deref s h = Some sp \<and> \<not> entered sp \<and> globalSubscriber s = Some sub' \<longrightarrow>
        fst (run h (\<lambda>t. (outcome, t)) s) = outcome
      \<and> notifications (snd (run h (\<lambda>t. (outcome, t)) s)) =
          notifications s @ [OnSpanEnter (context sp), OnSpanExit (context sp)]
      \<and> currentSpan (snd (run h (\<lambda>t. (outcome, t)) s)) = currentSpan s
      \<and> deref (snd (run h (\<lambda>t. (outcome, t)) s)) h = Some (sp\<lparr>previousSpan := currentSpan s\<rparr>))"
proof (intro conjI impI)
  show "run h fn s = (fst (fn (snd (enter h s))), exit h (snd (fn (snd (enter h s)))))"
    by (rule run_unfold) simp
next
  assume a: "fn (snd (enter h s)) = (r, s2) \<and> deref s2 h = Some sp2 \<and> entered sp2
        \<and> globalSubscriber s2 = Some sub"
  then have u: "run h fn s = (r, exit h s2)"
    by (intro run_unfold) simp
  from a show "fst (run h fn s) = r"
    by (simp add: u)
  from a show "notifications (snd (run h fn s)) = notifications s2 @ [OnSpanExit (context sp2)]"
    by (simp add: u notifications_exit_entered)
  from a show "currentSpan (snd (run h fn s)) = previousSpan sp2"
    by (simp add: u currentSpan_exit)
  from a show "deref (snd (run h fn s)) h = Some (sp2\<lparr>entered := False\<rparr>)"
    by (simp add: u deref_exit_entered)
next
  assume a: "deref s h = Some sp \<and> \<not> entered sp \<and> globalSubscriber s = Some sub'"
  let ?s1 = "snd (enter h s)"
  let ?sp1 = "sp\<lparr>entered := True, previousSpan := currentSpan s\<rparr>"
  have u: "run h (\<lambda>t. (outcome, t)) s = (outcome, exit h ?s1)"
    by (rule run_unfold) simp
  have d1: "deref ?s1 h = Some ?sp1"
    using a by (simp add: deref_enter_fresh)
  have n1: "notifications ?s1 = notifications s @ [OnSpanEnter (context sp)]"
    using a by (simp add: notifications_enter_fresh)
  have n2: "notifications (exit h ?s1) = notifications ?s1 @ [OnSpanExit (context ?sp1)]"
    using d1 a by (intro notifications_exit_entered[where sub = sub']) auto
  have c2: "currentSpan (exit h ?s1) = previousSpan ?sp1"
    using d1 by (intro currentSpan_exit) auto
  have d2: "deref (exit h ?s1) h = Some (?sp1\<lparr>entered := False\<rparr>)"
    using d1 by (intro deref_exit_entered) auto
  show "fst (run h (\<lambda>t. (outcome, t)) s) = outcome"
    by (simp add: u)
  show "notifications (snd (run h (\<lambda>t. (outcome, t)) s)) =
          notifications s @ [OnSpanEnter (context sp), OnSpanExit (context sp)]"
    by (simp add: u n1 n2)
  show "currentSpan (snd (run h (\<lambda>t. (outcome, t)) s)) = currentSpan s"
    by (simp add: u c2)
  show "deref (snd (run h (\<lambda>t. (outcome, t)) s)) h = Some (sp\<lparr>previousSpan := currentSpan s\<rparr>)"
    using a by (simp add: u d2)
qed

theorem run_exits_on_every_path_witness:
  "fst (run 1 (\<lambda>t. (Inl (VStr ''X'') :: jsval + jsval, t)) nested_world) = Inl (VStr ''X'')
   \<and> notifications (snd (run 1 (\<lambda>t. (Inl (VStr ''X'') :: jsval + jsval, t)) nested_world)) =
       notifications nested_world @
         [OnSpanEnter (context (heap nested_world ! 1)),
          OnSpanExit (context (heap nested_world ! 1))]
   \<and> currentSpan (snd (run 1 (\<lambda>t. (Inl (VStr ''X'') :: jsval + jsval, t)) nested_world)) =
       currentSpan nested_world
   \<and> notifications (snd (run 1 (\<lambda>t. (Inr (VNum 7) :: jsval + jsval, t)) nested_world)) =
       notifications (snd (enter 1 nested_world)) @
         [OnSpanExit (context (heap nested_world ! 1))]"
proof -
  let ?sp1 = "(heap nested_world ! 1)\<lparr>entered := True, previousSpan := currentSpan nested_world\<rparr>"
  have d1: "deref (snd (enter 1 nested_world)) 1 = Some ?sp1"
    using nested_world_deref(2) nested_world_heap(3) by (rule deref_enter_fresh)
  have g1: "globalSubscriber (snd (enter 1 nested_world)) = Some (CollectorSubscriber INFO)"
    by (simp add: nested_world_subscriber)
  have e1: "entered ?sp1" by simp
  have c1: "context ?sp1 = context (heap nested_world ! 1)" by simp
  have f: "(\<lambda>t. (Inr (VNum 7) :: jsval + jsval, t)) (snd (enter 1 nested_world)) =
           (Inr (VNum 7), snd (enter 1 nested_world))"
    by simp
  from
    run_exits_on_every_path
      [where h = 1 and s = nested_world and sp = "heap nested_world ! 1"
         and sub' = "CollectorSubscriber INFO"
         and outcome = "Inl (VStr ''X'') :: jsval + jsval"]
    run_exits_on_every_path
      [where h = 1 and s = nested_world and fn = "\<lambda>t. (Inr (VNum 7) :: jsval + jsval, t)"
         and r = "Inr (VNum 7)" and ?s2.0 = "snd (enter 1 nested_world)" and ?sp2.0 = ?sp1
         and sub = "CollectorSubscriber INFO"]
    nested_world_deref(2) nested_world_heap(3) nested_world_subscriber d1 g1 e1 c1 f
  show ?thesis
    by metis
qed

section \<open>The filter of the event recorder\<close>

text \<open>
  Claim C5. When the installed subscriber's \<open>enabled\<close> answers false on the assembled
  metadata, \<open>recordEvent\<close> returns the state as it found it: the clock is not read,
  \<open>onEvent\<close> is not called, nothing is built from the arguments. The same holds with no
  subscriber. When \<open>enabled\<close> answers true, the clock is read once and \<open>onEvent\<close> is
  called once, with the metadata, the message, the fields given (or \<^verbatim>\<open>{}\<close>), the
  current span and the time read. So \<open>onEvent\<close> is called exactly when a subscriber is
  installed and enables the metadata.
\<close>

theorem recordEvent_filter:
  fixes s :: world and lvl :: Level and metadata_arg :: "PartialMetadata option"
  defines "md \<equiv> fullMetadata lvl (case metadata_arg of None \<Rightarrow> no_metadata | Some m \<Rightarrow> m)"
  shows "(\<forall>sub. globalSubscriber s = Some sub \<and> \<not> enabled sub md \<longrightarrow>
            recordEvent lvl msg fields_arg metadata_arg s = s)
       \<and> (globalSubscriber s = None \<longrightarrow> recordEvent lvl msg fields_arg metadata_arg s = s)
       \<and> (\<forall>sub. globalSubscriber s = Some sub \<and> enabled sub md \<longrightarrow>
            notifications (recordEvent lvl msg fields_arg metadata_arg s) =
              notifications s @
              [OnEvent \<lparr>ev_metadata = md, ev_message = msg,
                        ev_fields = (if fields_arg = VUndefined then VObj [] else fields_arg),
                        ev_span = currentSpan s,
                        ev_timestamp = timeSource s (clockReads s)\<rparr>]
          \<and> clockReads (recordEvent lvl msg fields_arg metadata_arg s) = Suc (clockReads s))
       \<and> (notifications (recordEvent lvl msg fields_arg metadata_arg s) \<noteq> notifications s
            \<longleftrightarrow> (\<exists>sub. globalSubscriber s = Some sub \<and> enabled sub md))"
  unfolding md_def
  by (auto simp: recordEvent_def Let_def Date_now_def notify_def split: option.splits)

theorem recordEvent_filter_witness:
  "recordEvent DEBUG ''d'' (VObj [(''k'', VNum 1)]) None nested_world = nested_world
   \<and> notifications (recordEvent WARN ''w'' VUndefined None nested_world) =
       notifications nested_world @
         [OnEvent \<lparr>ev_metadata = \<lparr>level = WARN, target = VUndefined, file = None, line = None\<rparr>,
                   ev_message = ''w'', ev_fields = VObj [],
                   ev_span = currentSpan nested_world,
                   ev_timestamp = timeSource nested_world (clockReads nested_world)\<rparr>]
   \<and> clockReads (recordEvent WARN ''w'' VUndefined None nested_world) =
       Suc (clockReads nested_world)
   \<and> recordEvent ERROR ''e'' VUndefined None silent_world = silent_world"
  using
    recordEvent_filter [where s = nested_world and lvl = DEBUG and metadata_arg = None
      and msg = "''d''" and fields_arg = "VObj [(''k'', VNum 1)]"]
    recordEvent_filter [where s = nested_world and lvl = WARN and metadata_arg = None
      and msg = "''w''" and fields_arg = VUndefined]
    recordEvent_filter [where s = silent_world and lvl = ERROR and metadata_arg = None
      and msg = "''e''" and fields_arg = VUndefined]
  by (simp add: nested_world_subscriber silent_world_subscriber CollectorSubscriber_def
      fullMetadata_def no_metadata_def)

section \<open>The identifier allocator\<close>

text \<open>
  Claim C4. In the state in which the module is loaded, whatever the client calls, the
  identifiers of the spans it has constructed are, in the order of construction,
  1, 2, ..., n: the first is 1, each is one more than the one before, none occurs twice.
  From any state, the spans constructed take the identifiers that follow the counter, one by
  one, and a construction gives its span the counter plus one and moves the counter by
  one.
\<close>

theorem span_ids_are_consecutive:
  "span_ids (exec_ops ops (initial_world ts)) = [1 ..< Suc (constructions ops)]
   \<and> span_ids (exec_ops ops s) =
       span_ids s @ [spanIdCounter s + 1 ..< spanIdCounter s + 1 + constructions ops]
   \<and> map_option sc_id (getContext (fst (new_Span name fields_arg metadata_arg s))
                                    (snd (new_Span name fields_arg metadata_arg s)))
       = Some (spanIdCounter s + 1)
   \<and> spanIdCounter (snd (new_Span name fields_arg metadata_arg s)) = spanIdCounter s + 1
   \<and> distinct (span_ids (exec_ops ops (initial_world ts)))
   \<and> sorted_wrt (<) (span_ids (exec_ops ops (initial_world ts)))"
proof -
  have init: "span_ids (exec_ops ops (initial_world ts)) = [1 ..< Suc (constructions ops)]"
    using exec_ops_ids[of ops "initial_world ts"]
    by (simp add: span_ids_def initial_world_def)
  have new: "map_option sc_id (getContext (fst (new_Span name fields_arg metadata_arg s))
                                    (snd (new_Span name fields_arg metadata_arg s)))
       = Some (spanIdCounter s + 1)"
    by (simp add: getContext_def deref_def new_Span_result)
  have d: "distinct (span_ids (exec_ops ops (initial_world ts)))"
    unfolding init by simp
  have st: "sorted_wrt (<) (span_ids (exec_ops ops (initial_world ts)))"
    unfolding init by (rule sorted_wrt_upt)
  have gen: "span_ids (exec_ops ops s) =
       span_ids s @ [spanIdCounter s + 1 ..< spanIdCounter s + 1 + constructions ops]"
    using exec_ops_ids[of ops s] by blast
  have cnt: "spanIdCounter (snd (new_Span name fields_arg metadata_arg s)) = spanIdCounter s + 1"
    by (rule spanIdCounter_new_Span)
  from init gen new cnt d st show ?thesis
    by blast
qed

theorem span_ids_are_consecutive_witness:
  "span_ids (exec_ops [OpNew ''a'' None None, OpEnter 0, OpEmit INFO ''m'' None,
                       OpNew ''b'' None None, OpExit 0, OpNew ''c'' None None]
                      (initial_world (\<lambda>n. 0))) = [1, 2, 3]
   \<and> span_ids (exec_ops [OpNew ''a'' None None, OpEnter 0, OpEmit INFO ''m'' None,
                         OpNew ''b'' None None, OpExit 0, OpNew ''c'' None None]
                        nested_world)
       = span_ids nested_world @
           [spanIdCounter nested_world + 1, spanIdCounter nested_world + 2,
            spanIdCounter nested_world + 3]"
proof -
  let ?ops = "[OpNew ''a'' None None, OpEnter 0, OpEmit INFO ''m'' None,
               OpNew ''b'' None None, OpExit 0, OpNew ''c'' None None]"
  have c: "constructions ?ops = 3"
    by (simp add: constructions_def)
  have u: "[1 ..< Suc 3] = [1, 2, 3::nat]"
    by (simp add: upt_conv_Cons)
  have v: "[n + 1 ..< n + 1 + 3] = [n + 1, n + 2, n + 3]" for n :: nat
    by (simp add: upt_conv_Cons)
  note t = span_ids_are_consecutive
      [where ops = ?ops and ts = "\<lambda>n. 0" and s = nested_world and name = "''a''"
         and fields_arg = None and metadata_arg = None]
  from t have "span_ids (exec_ops ?ops (initial_world (\<lambda>n. 0))) = [1 ..< Suc 3]"
    unfolding c by (rule conjunct1)
  moreover from t have "span_ids (exec_ops ?ops nested_world) =
      span_ids nested_world @
        [spanIdCounter nested_world + 1 ..< spanIdCounter nested_world + 1 + 3]"
    unfolding c by blast
  ultimately show ?thesis
    unfolding u v by (rule conjI)
qed

section \<open>Construction and the parent link\<close>

text \<open>
  Claim C6. The constructor returns a handle that did not exist before; the context of the
  new span has as parent the span that was current when the constructor ran; the new
  span is not entered; the constructor leaves the current span and the calls received by the
  subscriber as they were. Whatever the client calls afterwards, among them \<open>enter\<close> on
  the new span under another current span, the context of the span, and so its parent, stays
  the same. A span constructed right after a span \<open>outer\<close> was entered has the context of
  \<open>outer\<close> as parent.
\<close>

theorem construction_snapshots_parent:
  "getContext (fst (new_Span name f m s)) s = None
   \<and> map_option sc_parent (getContext (fst (new_Span name f m s)) (snd (new_Span name f m s)))
       = Some (currentSpan s)
   \<and> map_option entered (deref (snd (new_Span name f m s)) (fst (new_Span name f m s)))
       = Some False
   \<and> currentSpan (snd (new_Span name f m s)) = currentSpan s
   \<and> notifications (snd (new_Span name f m s)) = notifications s
   \<and> getContext (fst (new_Span name f m s)) (exec_ops ops (snd (new_Span name f m s)))
       = getContext (fst (new_Span name f m s)) (snd (new_Span name f m s))
   \<and> (deref s outer = Some sp \<and> \<not> entered sp \<longrightarrow>
        map_option sc_parent
          (getContext (fst (new_Span name f m (snd (enter outer s))))
                      (snd (new_Span name f m (snd (enter outer s)))))
        = Some (Some (context sp)))"
proof -
  let ?h = "fst (new_Span name f m s)"
  let ?s' = "snd (new_Span name f m s)"
  have fresh: "getContext ?h s = None"
    by (simp add: new_Span_result getContext_def deref_def)
  have parent: "map_option sc_parent (getContext h' s') = Some (currentSpan t)"
    if "new_Span name f m t = (h', s')" for t h' s'
    using that by (auto simp: new_Span_result getContext_def deref_def)
  have p1: "map_option sc_parent (getContext ?h ?s') = Some (currentSpan s)"
    by (rule parent) simp
  have e: "map_option entered (deref ?s' ?h) = Some False"
    by (simp add: new_Span_result deref_def)
  have c: "currentSpan ?s' = currentSpan s"
    by (simp add: new_Span_result)
  have n: "notifications ?s' = notifications s"
    by (simp add: new_Span_result)
  obtain ctx where g: "getContext ?h ?s' = Some ctx"
    by (simp add: new_Span_result getContext_def deref_def)
  have imm: "getContext ?h (exec_ops ops ?s') = getContext ?h ?s'"
    using getContext_exec_ops[OF g, of ops] g by simp
  have inner: "map_option sc_parent
          (getContext (fst (new_Span name f m (snd (enter outer s))))
                      (snd (new_Span name f m (snd (enter outer s)))))
        = Some (Some (context sp))"
    if "deref s outer = Some sp" "\<not> entered sp"
  proof -
    have "map_option sc_parent
          (getContext (fst (new_Span name f m (snd (enter outer s))))
                      (snd (new_Span name f m (snd (enter outer s)))))
        = Some (currentSpan (snd (enter outer s)))"
      by (rule parent) simp
    with that show ?thesis
      by (simp add: currentSpan_enter_fresh)
  qed
  from fresh p1 e c n imm inner show ?thesis
    by blast
qed

theorem construction_snapshots_parent_witness:
  "map_option sc_parent
     (getContext (fst (new_Span ''inner'' None None (snd (enter 1 nested_world))))
                 (snd (new_Span ''inner'' None None (snd (enter 1 nested_world)))))
     = Some (Some (context (heap nested_world ! 1)))
   \<and> map_option sc_parent
       (getContext (fst (new_Span ''inner'' None None nested_world))
          (exec_ops [OpEnter 1, OpEnter 3, OpExit 3]
             (snd (new_Span ''inner'' None None nested_world))))
     = Some (Some (context (heap nested_world ! 0)))"
proof -
  note t = construction_snapshots_parent
      [where name = "''inner''" and f = None and m = None and s = nested_world
         and ops = "[OpEnter 1, OpEnter 3, OpExit 3]" and outer = 1
         and sp = "heap nested_world ! 1"]
  from t nested_world_deref(2) nested_world_heap(3)
  have a: "map_option sc_parent
     (getContext (fst (new_Span ''inner'' None None (snd (enter 1 nested_world))))
                 (snd (new_Span ''inner'' None None (snd (enter 1 nested_world)))))
     = Some (Some (context (heap nested_world ! 1)))"
    by blast
  from t have "map_option sc_parent
       (getContext (fst (new_Span ''inner'' None None nested_world))
          (exec_ops [OpEnter 1, OpEnter 3, OpExit 3]
             (snd (new_Span ''inner'' None None nested_world))))
     = Some (currentSpan nested_world)"
    by metis
  with a show ?thesis
    by (simp add: nested_world_current)
qed

section \<open>The options of the emitters\<close>

text \<open>
  Claim C7. Let a subscriber be installed that enables every metadata of level \<open>lvl\<close>. The
  emitter of level \<open>lvl\<close>, called with an options object \<open>obj\<close>, delivers one event. If
  \<open>obj\<close> has a property \<^verbatim>\<open>target\<close> or a property \<^verbatim>\<open>fields\<close>, whatever their values, the
  target of the event is the value of \<^verbatim>\<open>obj.target\<close> and its fields are the value of
  \<^verbatim>\<open>obj.fields\<close> (\<^verbatim>\<open>{}\<close> when that is undefined); otherwise the target is undefined and
  the fields are \<open>obj\<close> itself. In particular \<^verbatim>\<open>info(msg, {target: "x"})\<close> delivers an event
  with target \<^verbatim>\<open>"x"\<close> and no fields.
\<close>

theorem options_by_key_presence:
  assumes "globalSubscriber s = Some sub" and "\<forall>md. level md = lvl \<longrightarrow> enabled sub md"
  shows "notifications (emit lvl msg (Some obj) s) =
           notifications s @
           [OnEvent
              \<lparr>ev_metadata =
                 \<lparr>level = lvl,
                  target = (if has_prop ''target'' obj \<or> has_prop ''fields'' obj
                            then get_prop ''target'' obj else VUndefined),
                  file = None, line = None\<rparr>,
               ev_message = msg,
               ev_fields =
                 (if has_prop ''target'' obj \<or> has_prop ''fields'' obj
                  then (if get_prop ''fields'' obj = VUndefined then VObj []
                        else get_prop ''fields'' obj)
                  else VObj obj),
               ev_span = currentSpan s,
               ev_timestamp = timeSource s (clockReads s)\<rparr>]
       \<and> (lvl = INFO \<longrightarrow>
            notifications (info msg (Some [(''target'', VStr ''x'')]) s) =
              notifications s @
              [OnEvent
                 \<lparr>ev_metadata = \<lparr>level = INFO, target = VStr ''x'', file = None, line = None\<rparr>,
                  ev_message = msg, ev_fields = VObj [], ev_span = currentSpan s,
                  ev_timestamp = timeSource s (clockReads s)\<rparr>])"
proof -
  have en: "enabled sub (fullMetadata lvl (case Some (target_only t) of
              None \<Rightarrow> no_metadata | Some x \<Rightarrow> x))" for t
    using assms(2) by (simp add: fullMetadata_def)
  have gen: "notifications (emit lvl msg (Some ob) s) =
           notifications s @
           [OnEvent
              \<lparr>ev_metadata =
                 \<lparr>level = lvl,
                  target = (if has_prop ''target'' ob \<or> has_prop ''fields'' ob
                            then get_prop ''target'' ob else VUndefined),
                  file = None, line = None\<rparr>,
               ev_message = msg,
               ev_fields =
                 (if has_prop ''target'' ob \<or> has_prop ''fields'' ob
                  then (if get_prop ''fields'' ob = VUndefined then VObj []
                        else get_prop ''fields'' ob)
                  else VObj ob),
               ev_span = currentSpan s,
               ev_timestamp = timeSource s (clockReads s)\<rparr>]" for ob
    unfolding emit_recordEvent
    by (subst recordEvent_enabled[OF assms(1) en])
      (simp add: normalizeLogOptions_def fullMetadata_def target_only_def)
  have "notifications (info msg (Some [(''target'', VStr ''x'')]) s) =
              notifications s @
              [OnEvent
                 \<lparr>ev_metadata = \<lparr>level = INFO, target = VStr ''x'', file = None, line = None\<rparr>,
                  ev_message = msg, ev_fields = VObj [], ev_span = currentSpan s,
                  ev_timestamp = timeSource s (clockReads s)\<rparr>]"
    if "lvl = INFO"
    using gen[of "[(''target'', VStr ''x'')]"] that
    by (simp add: has_prop_def get_prop_def)
  with gen[of obj] show ?thesis by blast
qed

theorem options_by_key_presence_witness:
  "notifications (info ''hello'' (Some [(''target'', VStr ''x'')]) nested_world) =
     notifications nested_world @
       [OnEvent
          \<lparr>ev_metadata = \<lparr>level = INFO, target = VStr ''x'', file = None, line = None\<rparr>,
           ev_message = ''hello'', ev_fields = VObj [], ev_span = currentSpan nested_world,
           ev_timestamp = timeSource nested_world (clockReads nested_world)\<rparr>]
   \<and> notifications (emit INFO ''hello'' (Some [(''user'', VStr ''u''), (''target'', VNum 5)])
                      nested_world) =
     notifications nested_world @
       [OnEvent
          \<lparr>ev_metadata = \<lparr>level = INFO, target = VNum 5, file = None, line = None\<rparr>,
           ev_message = ''hello'', ev_fields = VObj [], ev_span = currentSpan nested_world,
           ev_timestamp = timeSource nested_world (clockReads nested_world)\<rparr>]
   \<and> notifications (emit INFO ''hello'' (Some [(''user'', VStr ''u'')]) nested_world) =
     notifications nested_world @
       [OnEvent
          \<lparr>ev_metadata = \<lparr>level = INFO, target = VUndefined, file = None, line = None\<rparr>,
           ev_message = ''hello'', ev_fields = VObj [(''user'', VStr ''u'')],
           ev_span = currentSpan nested_world,
           ev_timestamp = timeSource nested_world (clockReads nested_world)\<rparr>]"
proof -
  have en: "\<forall>md. level md = INFO \<longrightarrow> enabled (CollectorSubscriber INFO) md"
    by (simp add: CollectorSubscriber_def)
  note t = options_by_key_presence [OF nested_world_subscriber en]
  from t [of "''hello''" "[(''target'', VStr ''x'')]"]
  have a: "notifications (info ''hello'' (Some [(''target'', VStr ''x'')]) nested_world) =
     notifications nested_world @
       [OnEvent
          \<lparr>ev_metadata = \<lparr>level = INFO, target = VStr ''x'', file = None, line = None\<rparr>,
           ev_message = ''hello'', ev_fields = VObj [], ev_span = currentSpan nested_world,
           ev_timestamp = timeSource nested_world (clockReads nested_world)\<rparr>]"
    by blast
  from t [of "''hello''" "[(''user'', VStr ''u''), (''target'', VNum 5)]"]
  have b: "notifications (emit INFO ''hello'' (Some [(''user'', VStr ''u''), (''target'', VNum 5)])
                      nested_world) =
     notifications nested_world @
       [OnEvent
          \<lparr>ev_metadata = \<lparr>level = INFO, target = VNum 5, file = None, line = None\<rparr>,
           ev_message = ''hello'', ev_fields = VObj [], ev_span = currentSpan nested_world,
           ev_timestamp = timeSource nested_world (clockReads nested_world)\<rparr>]"
    by (simp add: has_prop_def get_prop_def)
  from t [of "''hello''" "[(''user'', VStr ''u'')]"]
  have c: "notifications (emit INFO ''hello'' (Some [(''user'', VStr ''u'')]) nested_world) =
     notifications nested_world @
       [OnEvent
          \<lparr>ev_metadata = \<lparr>level = INFO, target = VUndefined, file = None, line = None\<rparr>,
           ev_message = ''hello'', ev_fields = VObj [(''user'', VStr ''u'')],
           ev_span = currentSpan nested_world,
           ev_timestamp = timeSource nested_world (clockReads nested_world)\<rparr>]"
    by (simp add: has_prop_def get_prop_def)
  from a b c show ?thesis
    by (intro conjI)
qed

section \<open>Instrumented functions\<close>

text \<open>
  Claim C9, as the code has it. A call of the function that \<open>instrument name fn extra\<close>
  returns, on the argument list \<open>args\<close>, constructs a span under a handle that did not
  exist before: its context \<open>ctx\<close> has the next identifier, the name \<open>name\<close>, level INFO
  and the fields of \<open>extra\<close> with the property \<^verbatim>\<open>args\<close> set to the argument list. The
  span is entered, \<open>fn\<close> runs on \<open>args\<close> in the state \<open>s_in\<close> in which \<open>ctx\<close> is the current
  span, its outcome (value or thrown error) is the outcome of the call, and the span is
  exited on the state \<open>fn\<close> leaves. Two consecutive calls of a function that constructs no
  span itself take two consecutive identifiers: they are exactly one apart.
\<close>

theorem instrument_call:
  fixes s :: world and fn :: "jsval list \<Rightarrow> 'a computation" and name :: string
    and args :: "jsval list" and extra :: "Fields option"
  defines "ctx \<equiv> SpanContext (spanIdCounter s + 1) name
                   \<lparr>level = INFO, target = VUndefined, file = None, line = None\<rparr>
                   (set_prop ''args'' (VArr args) (spread extra)) (currentSpan s)
                   (timeSource s (clockReads s))"
  defines "s_in \<equiv> notify (OnSpanEnter ctx)
                    (s\<lparr>spanIdCounter := spanIdCounter s + 1,
                       clockReads := Suc (clockReads s),
                       heap := heap s @
                         [\<lparr>context = ctx, previousSpan = currentSpan s, entered = True\<rparr>],
                       currentSpan := Some ctx\<rparr>)"
  shows "instrument name fn extra args s =
           (fst (fn args s_in), exit (length (heap s)) (snd (fn args s_in)))
       \<and> deref s (length (heap s)) = None
       \<and> get_prop k (sc_fields ctx) =
           (if k = ''args'' then VArr args else get_prop k (spread extra))
       \<and> (deref (snd (fn args s_in)) (length (heap s)) = Some sp2 \<and> entered sp2 \<longrightarrow>
            currentSpan (snd (instrument name fn extra args s)) = previousSpan sp2
          \<and> deref (snd (instrument name fn extra args s)) (length (heap s)) =
              Some (sp2\<lparr>entered := False\<rparr>))
       \<and> ((\<forall>t. span_ids (snd (fn args t)) = span_ids t
               \<and> spanIdCounter (snd (fn args t)) = spanIdCounter t) \<longrightarrow>
            span_ids (snd (instrument name fn extra args
                        (snd (instrument name fn extra args s)))) =
              span_ids s @ [spanIdCounter s + 1, spanIdCounter s + 2])"
proof -
  have u: "instrument name fn extra args s =
           (fst (fn args s_in), exit (length (heap s)) (snd (fn args s_in)))"
    unfolding s_in_def ctx_def by (rule instrument_unfold)
  have new: "deref s (length (heap s)) = None"
    by (simp add: deref_def)
  have f: "get_prop k (sc_fields ctx) =
           (if k = ''args'' then VArr args else get_prop k (spread extra))"
    by (simp add: ctx_def get_prop_set_prop)
  have ex: "currentSpan (snd (instrument name fn extra args s)) = previousSpan sp2
          \<and> deref (snd (instrument name fn extra args s)) (length (heap s)) =
              Some (sp2\<lparr>entered := False\<rparr>)"
    if "deref (snd (fn args s_in)) (length (heap s)) = Some sp2" "entered sp2"
    using that by (simp add: u currentSpan_exit deref_exit_entered)
  have ids: "span_ids (snd (instrument name fn extra args
                        (snd (instrument name fn extra args s)))) =
              span_ids s @ [spanIdCounter s + 1, spanIdCounter s + 2]"
    if h: "\<forall>t. span_ids (snd (fn args t)) = span_ids t
               \<and> spanIdCounter (snd (fn args t)) = spanIdCounter t"
    using instrument_ids[of fn args name extra s]
      instrument_ids[of fn args name extra "snd (instrument name fn extra args s)"] h
    by simp
  from u new f ex ids show ?thesis by blast
qed

theorem instrument_call_witness:
  "span_ids two_calls_world = [1, 2]
   \<and> fst (instrument ''f'' plus_one None [VNum 41] collector_world) = Inr (VNum 42)"
proof -
  have h: "\<forall>t. span_ids (snd (plus_one [VNum 41] t)) = span_ids t
             \<and> spanIdCounter (snd (plus_one [VNum 41] t)) = spanIdCounter t"
    by (simp add: plus_one_def)
  note t = instrument_call
      [where name = "''f''" and fn = plus_one and extra = None and args = "[VNum 41]"
         and s = collector_world and k = "''args''"]
  from t h have "span_ids two_calls_world =
      span_ids collector_world @ [spanIdCounter collector_world + 1,
                                  spanIdCounter collector_world + 2]"
    unfolding two_calls_world_def by blast
  then have a: "span_ids two_calls_world = [1, 2]"
    by (simp add: collector_world_facts)
  from t obtain w w' where
    "instrument ''f'' plus_one None [VNum 41] collector_world = (fst (plus_one [VNum 41] w), w')"
    by blast
  then have b: "fst (instrument ''f'' plus_one None [VNum 41] collector_world) = Inr (VNum 42)"
    by (simp add: plus_one_def)
  from a b show ?thesis by (rule conjI)
qed

text \<open>The claim as the specification words it, identifiers exactly two apart, fails on
  the scenario of the specification itself: the two spans have the identifiers 1 and 2.\<close>

theorem instrument_ids_two_apart_counterexample:
  "span_ids two_calls_world = [1, 2]
   \<and> span_ids two_calls_world ! 1 \<noteq> span_ids two_calls_world ! 0 + 2"
proof -
  have "span_ids two_calls_world = [1, 2]"
    by (simp add: two_calls_world_def collector_world_def instrument_def span_def run_def
        plus_one_def span_ids_def spread_def run_defs)
  then show ?thesis by simp
qed

section \<open>The default level\<close>

text \<open>
  Claim C10. A span constructed with no metadata, or with metadata that has no level, has
  level INFO, whose code is 2: through the constructor, through \<open>span\<close>, and for the
  spans that \<open>instrument\<close> and \<open>instrumentAsync\<close> construct, which pass no metadata. For
  \<open>instrument\<close> the level is read off the current span by the instrumented function.
\<close>

theorem default_level_is_INFO:
  assumes "\<forall>x. m = Some x \<longrightarrow> p_level x = None"
  shows "map_option (\<lambda>c. level (sc_metadata c))
           (getContext (fst (new_Span name f m s)) (snd (new_Span name f m s))) = Some INFO
       \<and> map_option (\<lambda>c. level (sc_metadata c))
           (getContext (fst (span name f m s)) (snd (span name f m s))) = Some INFO
       \<and> map_option (\<lambda>c. level (sc_metadata c))
           (getContext (fst (instrumentAsync_span name extra args s))
                       (snd (instrumentAsync_span name extra args s))) = Some INFO
       \<and> fst (instrument name
                 (\<lambda>args t. (Inr (map_option (\<lambda>c. level (sc_metadata c))
                                   (currentSpanContext t)), t))
                 extra args s) = Inr (Some INFO)
       \<and> level_num INFO = 2"
proof -
  have l: "p_level (case m of None \<Rightarrow> no_metadata | Some x \<Rightarrow> x) = None"
    using assms by (cases m) (simp_all add: no_metadata_def)
  have a: "map_option (\<lambda>c. level (sc_metadata c))
           (getContext (fst (new_Span name f m s)) (snd (new_Span name f m s))) = Some INFO"
    by (simp add: new_Span_result getContext_def deref_def l)
  have b: "map_option (\<lambda>c. level (sc_metadata c))
           (getContext (fst (span name f m s)) (snd (span name f m s))) = Some INFO"
    by (simp add: span_result getContext_def deref_def l)
  have c: "map_option (\<lambda>c. level (sc_metadata c))
           (getContext (fst (instrumentAsync_span name extra args s))
                       (snd (instrumentAsync_span name extra args s))) = Some INFO"
    by (simp add: instrumentAsync_span_def span_result getContext_def deref_def no_metadata_def)
  have d: "fst (instrument name
                 (\<lambda>args t. (Inr (map_option (\<lambda>c. level (sc_metadata c))
                                   (currentSpanContext t)), t))
                 extra args s) = Inr (Some INFO)"
    by (simp add: instrument_unfold currentSpanContext_def)
  from a b c d show ?thesis by simp
qed

theorem default_level_is_INFO_witness:
  "map_option (\<lambda>c. level (sc_metadata c))
     (getContext (fst (new_Span ''q'' None (Some (target_only (VStr ''db''))) nested_world))
                 (snd (new_Span ''q'' None (Some (target_only (VStr ''db''))) nested_world)))
     = Some INFO
   \<and> map_option (\<lambda>c. level (sc_metadata c))
       (getContext (fst (span ''q'' None None nested_world))
                   (snd (span ''q'' None None nested_world))) = Some INFO"
proof -
  have h1: "\<forall>x. Some (target_only (VStr ''db'')) = Some x \<longrightarrow> p_level x = None"
    by (simp add: target_only_def)
  have h2: "\<forall>x. (None :: PartialMetadata option) = Some x \<longrightarrow> p_level x = None"
    by simp
  from default_level_is_INFO [OF h1, of "''q''" None nested_world]
    default_level_is_INFO [OF h2, of "''q''" None nested_world]
  show ?thesis by blast
qed

end
